theory Spec2Isabelle
  imports Main "HOL-Library.Sublist"
begin

section \<open>Python string primitives used by the two front ends\<close>

text \<open>
  Texts are modelled as \<^typ>\<open>string\<close>: every \<^typ>\<open>char\<close> stands for one code point below
  256, so \<open>length\<close> counts what Python's \<open>len\<close> counts on such texts. On these code
  points \<open>str.lower\<close> maps one character to one character (the ASCII capitals and the
  Latin-1 capitals \<open>0xC0..0xDE\<close> without \<open>0xD7\<close> move up by 32), and
  \<open>str.isspace\<close> holds for the twelve code points listed in \<open>is_space\<close>.

  Texts with other code points are outside this model. On them \<open>str.lower\<close> can change
  the length of a text (\<open>U+0130\<close> becomes two code points), and the indices that the
  parsers find in the lowered text then no longer fit the text they slice. Every
  statement below about the parsers is a statement about texts of code points below 256,
  whose lower-casing keeps every character in its place.
\<close>

definition lower_char :: "char \<Rightarrow> char" where
  "lower_char c =
     (let n = (of_char c :: nat)
      in if 65 \<le> n \<and> n \<le> 90 then char_of (n + 32)
         else if n = 215 then c
         else if 192 \<le> n \<and> n \<le> 222 then char_of (n + 32)
         else c)"

definition lower :: "string \<Rightarrow> string" where
  "lower text = map lower_char text"

definition is_space :: "char \<Rightarrow> bool" where
  "is_space c = ((of_char c :: nat) \<in> set [9, 10, 11, 12, 13, 28, 29, 30, 31, 32, 133, 160])"

definition lstrip :: "string \<Rightarrow> string" where
  "lstrip s = dropWhile is_space s"

definition rstrip :: "string \<Rightarrow> string" where
  "rstrip s = rev (dropWhile is_space (rev s))"

definition strip :: "string \<Rightarrow> string" where
  "strip s = lstrip (rstrip s)"

text \<open>
  \<open>text.find(sub)\<close>: the index of the first occurrence of \<open>sub\<close>, Python's \<open>-1\<close> being
  \<open>None\<close>.
\<close>

fun find_str :: "string \<Rightarrow> string \<Rightarrow> nat option" where
  "find_str [] sub = (if sub = [] then Some 0 else None)"
| "find_str (c # cs) sub =
     (if prefix sub (c # cs) then Some 0 else map_option Suc (find_str cs sub))"

text \<open>
  \<open>text[i:j]\<close> for indices \<open>0 \<le> i\<close>, \<open>0 \<le> j\<close>: Python clamps both to the length and
  returns the empty string when \<open>j \<le> i\<close>. \<open>text[i:]\<close> is \<open>drop i text\<close>.
\<close>

definition slice :: "nat \<Rightarrow> nat \<Rightarrow> string \<Rightarrow> string" where
  "slice i j text = take (j - i) (drop i text)"

definition startswith :: "string \<Rightarrow> string \<Rightarrow> bool" where
  "startswith s hdr = prefix hdr s"

definition endswith :: "string \<Rightarrow> string \<Rightarrow> bool" where
  "endswith s sfx = suffix sfx s"

section \<open>The response parser of \<open>author.py\<close>\<close>

text \<open>
  The two \<open>for hdr in (...)\<close> loops: each header of the tuple, in order, is removed from
  the front of the section when the section starts with it, and the rest is stripped
  again.
\<close>

definition clean_headers :: "string list \<Rightarrow> string \<Rightarrow> string" where
  "clean_headers hdrs section =
     foldl (\<lambda>s hdr. if startswith s hdr then strip (drop (length hdr) s) else s) section hdrs"

definition parse_editor_response :: "string \<Rightarrow> string \<times> string" where
  "parse_editor_response text =
     (let lower = lower text;
          sugg_idx = find_str lower ''### suggestions'';
          rew_idx = find_str lower ''### rewritten''
      in case (sugg_idx, rew_idx) of
           (Some s, Some r) \<Rightarrow>
             (let (suggestions, rewritten) =
                    (if s < r
                     then (strip (slice s r text),
                           strip (drop (r + length ''### REWRITTEN'') text))
                     else (strip (drop (s + length ''### SUGGESTIONS'') text),
                           strip (slice r s text)))
              in (clean_headers [''### SUGGESTIONS'', ''### Suggestions''] suggestions,
                  clean_headers [''### REWRITTEN'', ''### Rewritten''] rewritten))
         | _ \<Rightarrow> (strip text, ''''))"

section \<open>The response parser of \<open>authorChainlit.py\<close>\<close>

definition parse_editor_response_chainlit :: "string \<Rightarrow> string \<times> string" where
  "parse_editor_response_chainlit text =
     (let lower = lower text;
          sugg_idx = find_str lower ''### suggestions'';
          rew_idx = find_str lower ''### rewritten''
      in case (sugg_idx, rew_idx) of
           (Some s, Some r) \<Rightarrow>
             (if s < r
              then (strip (slice (s + length ''### suggestions'') r text),
                    strip (drop (r + length ''### rewritten'') text))
              else (strip (drop (s + length ''### suggestions'') text),
                    strip (slice (r + length ''### rewritten'') s text)))
         | _ \<Rightarrow> (strip text, ''''))"

section \<open>The terminal front end (\<open>author.py\<close>)\<close>

subsection \<open>State, node results and the console\<close>

record DocState =
  content :: string
  edited_version :: string
  suggestions :: string
  approved :: bool
  iteration :: int

text \<open>
  A node returns a dictionary holding some of the keys of \<open>DocState\<close>; the graph writes
  the returned keys over the state and keeps the others.
\<close>

record update =
  content_upd :: "string option"
  edited_version_upd :: "string option"
  suggestions_upd :: "string option"
  approved_upd :: "bool option"
  iteration_upd :: "int option"

definition no_update :: update where
  "no_update = \<lparr>content_upd = None, edited_version_upd = None, suggestions_upd = None,
                 approved_upd = None, iteration_upd = None\<rparr>"

definition apply_update :: "DocState \<Rightarrow> update \<Rightarrow> DocState" where
  "apply_update st u =
     \<lparr>content = (case content_upd u of None \<Rightarrow> content st | Some v \<Rightarrow> v),
      edited_version = (case edited_version_upd u of None \<Rightarrow> edited_version st | Some v \<Rightarrow> v),
      suggestions = (case suggestions_upd u of None \<Rightarrow> suggestions st | Some v \<Rightarrow> v),
      approved = (case approved_upd u of None \<Rightarrow> approved st | Some v \<Rightarrow> v),
      iteration = (case iteration_upd u of None \<Rightarrow> iteration st | Some v \<Rightarrow> v)\<rparr>"

text \<open>
  What escapes a node or the graph: \<open>input()\<close> at the end of the input raises
  \<open>EOFError\<close>, which nothing catches; a client that cannot be constructed ends the
  process with \<open>sys.exit(1)\<close>; and \<open>app.invoke\<close> raises \<open>GraphRecursionError\<close>, which
  \<open>main\<close> does not catch either, when the graph has not reached \<open>END\<close> within its
  recursion limit. What was printed before the escape is not recorded.
\<close>

datatype error = EOFError | SystemExit | GraphRecursionError

text \<open>
  The console: one constructor for each thing the program prints (a heading printed by
  \<open>print_divider\<close> goes with the text under it), carrying the text that varies.
  \<open>Prompt p\<close> is the blank line and the prompt of \<open>read_multiline\<close>, \<open>Diff a b\<close> the
  unified diff of \<open>a\<close> and \<open>b\<close> that \<open>show_diff\<close> prints line by line, \<open>Menu\<close> the
  five numbered options.
\<close>

datatype message =
    Prompt string
  | Welcome
  | NoSuggestionEntered
  | GeneratedInitialStory
  | InitialGenerationError string
  | EditorSuggestions string
  | NoSuggestionsReturned
  | RewrittenPreview string
  | Menu
  | AcceptedRewrite
  | NothingToAccept
  | NoChangesMade
  | NoInstructions
  | RevisionComplete
  | RevisionError string
  | Diff string string
  | NoVersionToDiff
  | InvalidChoice
  | EditorReview int
  | EditorCallError string
  | NothingToSave
  | SaveToMarkdown
  | Saved string
  | FailedToSave string

text \<open>
  A language-model client: the content of the response to a prompt, or \<open>Inl e\<close> when
  \<open>invoke\<close> raises the exception \<open>e\<close>. \<open>make_creator_llm\<close> and \<open>make_editor_llm\<close>
  produce a client or fail with the constructor's exception.
\<close>

type_synonym llm = "string \<Rightarrow> string + string"

text \<open>
  The local time that \<open>time.strftime\<close> reads, and the file system: the files by name
  with their contents. \<open>open_error name = Some e\<close> says that opening \<open>name\<close> for
  writing raises \<open>e\<close>.
\<close>

record tm =
  tm_year :: nat
  tm_mon :: nat
  tm_mday :: nat
  tm_hour :: nat
  tm_min :: nat

type_synonym files = "string \<rightharpoonup> string"

text \<open>
  \<open>recursion_limit\<close> is the number of passes through nodes that \<open>app.invoke\<close> allows
  before it gives up. The bound belongs to the graph library (\<open>main\<close> configures
  nothing, so the library's default applies, 25 in its documentation) and is taken as a
  parameter here.
\<close>

record world =
  make_creator_llm :: "string + llm"
  make_editor_llm :: "string + llm"
  localtime :: tm
  open_error :: "string \<Rightarrow> string option"
  recursion_limit :: nat

definition EDITOR_SYS_PROMPT :: string where
  "EDITOR_SYS_PROMPT =
     ''You are a meticulous senior editor.\<newline>'' @
     ''Task: Review the user's DRAFT and propose clear, actionable improvements\<newline>'' @
     ''to clarity, structure, tone, grammar, and originality.\<newline>'' @
     ''ensure any  story is brief and keep it to under 300 words.'' @
     ''Return TWO sections in Markdown exactly in this format:\<newline>\<newline>'' @
     ''### SUGGESTIONS\<newline>'' @
     ''- Use bullet points. Make each suggestion concise but specific.\<newline>'' @
     ''- Only include changes that improve the piece.\<newline>\<newline>'' @
     ''### REWRITTEN\<newline>'' @
     ''Provide a single improved version that applies your suggestions while\<newline>'' @
     ''preserving the author's intent and voice.\<newline>''"

definition CREATOR_SYS_PROMPT :: string where
  "CREATOR_SYS_PROMPT =
     ''You are a helpful content creator. Your task is to take a story suggestion from the user and write an original story based on it. You should then accept feedback and suggestions to refine the draft while preserving the author's intent. When asked to revise, return only the full revised content (no commentary).''"

subsection \<open>Reading the terminal\<close>

text \<open>
  The terminal input is the list of the lines still to be read; \<open>input()\<close> takes the
  first one and raises \<open>EOFError\<close> when none is left.
\<close>

definition input_line :: "string list \<Rightarrow> error + (string \<times> string list)" where
  "input_line stdin = (case stdin of [] \<Rightarrow> Inl EOFError | line # rest \<Rightarrow> Inr (line, rest))"

fun join :: "string \<Rightarrow> string list \<Rightarrow> string" where
  "join sep [] = []"
| "join sep [x] = x"
| "join sep (x # y # ys) = x @ sep @ join sep (y # ys)"

text \<open>
  The \<open>while True\<close> loop of \<open>read_multiline\<close>: it stops at the end of the input (the
  \<open>EOFError\<close> is caught there) and at a line that is \<open>/done\<close> once stripped.
\<close>

fun read_lines :: "string list \<Rightarrow> string list \<Rightarrow> string list \<times> string list" where
  "read_lines [] lines = (lines, [])"
| "read_lines (line # rest) lines =
     (if strip line = ''/done'' then (lines, rest) else read_lines rest (lines @ [line]))"

definition read_multiline :: "string list \<Rightarrow> string \<times> string list" where
  "read_multiline stdin =
     (let (lines, rest) = read_lines stdin [] in (strip (join ''\<newline>'' lines), rest))"

subsection \<open>The two nodes\<close>

definition initial_prompt :: "string \<Rightarrow> string" where
  "initial_prompt suggestion =
     CREATOR_SYS_PROMPT @ ''\<newline>\<newline>'' @
     ''Here is the user's suggestion: '' @ suggestion @ ''\<newline>\<newline>'' @
     ''Please write a story based on this suggestion.''"

definition revise_prompt :: "string \<Rightarrow> string \<Rightarrow> string" where
  "revise_prompt draft user_instr =
     CREATOR_SYS_PROMPT @ ''\<newline>\<newline>'' @
     ''Here is the current draft between <draft> tags. Revise it per the user instructions.\<newline>\<newline>'' @
     ''<draft>\<newline>'' @ draft @ ''\<newline></draft>\<newline>\<newline>'' @
     ''User instructions: '' @ user_instr @ ''\<newline>\<newline>'' @
     ''Return only the revised draft.''"

definition editor_prompt :: "string \<Rightarrow> string" where
  "editor_prompt draft =
     EDITOR_SYS_PROMPT @ ''\<newline>\<newline>'' @
     ''Here is the DRAFT between <draft> tags.\<newline>\<newline>'' @
     ''<draft>\<newline>'' @ draft @ ''\<newline></draft>\<newline>''"

definition preview :: "string \<Rightarrow> string" where
  "preview rewrite =
     take 600 rewrite @ (if length rewrite > 600 then ''...'' else [])"

text \<open>
  \<open>creator_node\<close>, given the client \<open>CREATOR_LLM\<close>. The result is the returned
  dictionary, the input left to read and what was printed.
\<close>

definition creator_node ::
  "llm \<Rightarrow> DocState \<Rightarrow> string list \<Rightarrow> error + (update \<times> string list \<times> message list)" where
  "creator_node CREATOR_LLM state stdin =
     (if iteration state = 0 \<and> content state = []
      then
        (let what = ''What story would you like to create? Provide a suggestion or idea.\<newline>Type /done when finished.'';
             (suggestion, stdin1) = read_multiline stdin
         in if suggestion = []
            then Inr (no_update\<lparr>approved_upd := Some True\<rparr>, stdin1,
                      [Welcome, Prompt what, NoSuggestionEntered])
            else
              (case CREATOR_LLM (initial_prompt suggestion) of
                 Inr initial_content \<Rightarrow>
                   Inr (no_update\<lparr>content_upd := Some initial_content,
                                   iteration_upd := Some (iteration state + 1)\<rparr>,
                        stdin1, [Welcome, Prompt what, GeneratedInitialStory])
               | Inl e \<Rightarrow>
                   Inr (no_update\<lparr>approved_upd := Some True\<rparr>, stdin1,
                        [Welcome, Prompt what, InitialGenerationError e])))
      else
        (let shown =
               [if suggestions state \<noteq> [] then EditorSuggestions (suggestions state)
                else NoSuggestionsReturned] @
               (if edited_version state \<noteq> []
                then [RewrittenPreview (preview (edited_version state))] else []) @
               [Menu]
         in case input_line stdin of
              Inl err \<Rightarrow> Inl err
            | Inr (line, stdin1) \<Rightarrow>
               (let choice = strip line
                in if choice = ''1'' then
                     (if edited_version state \<noteq> []
                      then Inr (no_update\<lparr>content_upd := Some (edited_version state),
                                            iteration_upd := Some (iteration state + 1)\<rparr>,
                                stdin1, shown @ [AcceptedRewrite])
                      else Inr (no_update\<lparr>iteration_upd := Some (iteration state + 1)\<rparr>,
                                stdin1, shown @ [NothingToAccept]))
                   else if choice = ''2'' then
                     (let edit = ''Edit your draft. Type /done when finished:'';
                          (new_text, stdin2) = read_multiline stdin1
                      in if new_text \<noteq> []
                         then Inr (no_update\<lparr>content_upd := Some new_text,
                                               iteration_upd := Some (iteration state + 1)\<rparr>,
                                   stdin2, shown @ [Prompt edit])
                         else Inr (no_update\<lparr>iteration_upd := Some (iteration state + 1)\<rparr>,
                                   stdin2, shown @ [Prompt edit, NoChangesMade]))
                   else if choice = ''3'' then
                     (let how = ''Describe how you'd like the AI to revise (tone, length, audience, etc.).\<newline>Type /done when finished:'';
                          (user_instr, stdin2) = read_multiline stdin1
                      in if strip user_instr = []
                         then Inr (no_update\<lparr>iteration_upd := Some (iteration state + 1)\<rparr>,
                                   stdin2, shown @ [Prompt how, NoInstructions])
                         else
                           (case CREATOR_LLM (revise_prompt (content state) user_instr) of
                              Inr revised \<Rightarrow>
                                Inr (no_update\<lparr>content_upd := Some revised,
                                                iteration_upd := Some (iteration state + 1)\<rparr>,
                                     stdin2, shown @ [Prompt how, RevisionComplete])
                            | Inl e \<Rightarrow>
                                Inr (no_update\<lparr>iteration_upd := Some (iteration state + 1)\<rparr>,
                                     stdin2, shown @ [Prompt how, RevisionError e])))
                   else if choice = ''4'' then
                     Inr (no_update\<lparr>iteration_upd := Some (iteration state + 1)\<rparr>, stdin1,
                          shown @
                          [if edited_version state \<noteq> []
                           then Diff (content state) (edited_version state)
                           else NoVersionToDiff])
                   else if choice = ''5'' then
                     Inr (no_update\<lparr>approved_upd := Some True\<rparr>, stdin1, shown)
                   else
                     Inr (no_update\<lparr>iteration_upd := Some (iteration state + 1)\<rparr>, stdin1,
                          shown @ [InvalidChoice]))))"

text \<open>\<open>editor_node\<close>, given the client \<open>EDITOR_LLM\<close>.\<close>

definition editor_node :: "llm \<Rightarrow> DocState \<Rightarrow> update \<times> message list" where
  "editor_node EDITOR_LLM state =
     (let draft = strip (content state)
      in if draft = [] then (no_update, [])
         else
           (case EDITOR_LLM (editor_prompt draft) of
              Inr resp \<Rightarrow>
                (let (sugg, rewritten) = parse_editor_response resp
                 in (no_update\<lparr>suggestions_upd := Some sugg,
                                 edited_version_upd := Some rewritten\<rparr>,
                     [EditorReview (iteration state)]))
            | Inl e \<Rightarrow>
                (no_update\<lparr>suggestions_upd :=
                              Some ''(Editor call failed. You can continue editing manually.)'',
                            edited_version_upd := Some []\<rparr>,
                 [EditorReview (iteration state), EditorCallError e])))"

subsection \<open>The graph\<close>

datatype node = Creator | Editor | END

definition route_after_creator :: "DocState \<Rightarrow> string" where
  "route_after_creator state = (if approved state then ''end'' else ''editor'')"

text \<open>
  One pass through a node, the global client being made on the first pass (the
  constructor's outcome does not change during a run), followed by the edge out of the
  node: the conditional edge after \<open>creator\<close>, the edge back to \<open>creator\<close> after
  \<open>editor\<close>.
\<close>

definition creator_step ::
  "world \<Rightarrow> DocState \<Rightarrow> string list \<Rightarrow> error + (node \<times> DocState \<times> string list \<times> message list)" where
  "creator_step w state stdin =
     (case make_creator_llm w of
        Inl e \<Rightarrow> Inl SystemExit
      | Inr CREATOR_LLM \<Rightarrow>
          (case creator_node CREATOR_LLM state stdin of
             Inl err \<Rightarrow> Inl err
           | Inr (u, stdin1, out) \<Rightarrow>
               (let state1 = apply_update state u
                in Inr (if route_after_creator state1 = ''end'' then END else Editor,
                        state1, stdin1, out))))"

definition editor_step ::
  "world \<Rightarrow> DocState \<Rightarrow> string list \<Rightarrow> error + (node \<times> DocState \<times> string list \<times> message list)" where
  "editor_step w state stdin =
     (case make_editor_llm w of
        Inl e \<Rightarrow> Inl SystemExit
      | Inr EDITOR_LLM \<Rightarrow>
          (let (u, out) = editor_node EDITOR_LLM state
           in Inr (Creator, apply_update state u, stdin, out)))"

text \<open>
  \<open>app.invoke(state)\<close>: the nodes run from \<open>creator\<close> until the edge to \<open>END\<close> is
  taken; \<open>passes\<close> counts the passes still allowed, and the run fails with
  \<open>GraphRecursionError\<close> when a node is due and none is left.
\<close>

fun run_graph ::
  "world \<Rightarrow> nat \<Rightarrow> node \<Rightarrow> DocState \<Rightarrow> string list \<Rightarrow>
   error + (DocState \<times> string list \<times> message list)" where
  "run_graph w passes END state stdin = Inr (state, stdin, [])"
| "run_graph w 0 Creator state stdin = Inl GraphRecursionError"
| "run_graph w 0 Editor state stdin = Inl GraphRecursionError"
| "run_graph w (Suc passes) Creator state stdin =
     (case creator_step w state stdin of
        Inl err \<Rightarrow> Inl err
      | Inr (next_node, state1, stdin1, out) \<Rightarrow>
          (case run_graph w passes next_node state1 stdin1 of
             Inl err \<Rightarrow> Inl err
           | Inr (final_state, stdin2, out2) \<Rightarrow> Inr (final_state, stdin2, out @ out2)))"
| "run_graph w (Suc passes) Editor state stdin =
     (case editor_step w state stdin of
        Inl err \<Rightarrow> Inl err
      | Inr (next_node, state1, stdin1, out) \<Rightarrow>
          (case run_graph w passes next_node state1 stdin1 of
             Inl err \<Rightarrow> Inl err
           | Inr (final_state, stdin2, out2) \<Rightarrow> Inr (final_state, stdin2, out @ out2)))"

text \<open>
  The passes of a run, counted: \<open>turns w c k c'\<close> says that the graph gets from the
  configuration \<open>c\<close> (the node about to run, the state, the input left) to \<open>c'\<close>, and
  that \<open>k\<close> of the passes on the way were passes through \<open>creator\<close> that handed the
  draft on to \<open>editor\<close>.
\<close>

inductive turns ::
  "world \<Rightarrow> node \<times> DocState \<times> string list \<Rightarrow> nat \<Rightarrow> node \<times> DocState \<times> string list \<Rightarrow> bool"
  for w :: world where
    turns_none: "turns w c 0 c"
  | turns_creator:
      "creator_step w state stdin = Inr (next_node, state1, stdin1, out) \<Longrightarrow>
       turns w (next_node, state1, stdin1) k c \<Longrightarrow>
       k1 = (if next_node = Editor then Suc k else k) \<Longrightarrow>
       turns w (Creator, state, stdin) k1 c"
  | turns_editor:
      "editor_step w state stdin = Inr (next_node, state1, stdin1, out) \<Longrightarrow>
       turns w (next_node, state1, stdin1) k c \<Longrightarrow>
       turns w (Editor, state, stdin) k c"

subsection \<open>Saving the draft\<close>

text \<open>
  \<open>time.strftime("draft_%Y-%m-%d_%H%M.md")\<close> on the local time, for a year of four
  digits.
\<close>

definition digit :: "nat \<Rightarrow> char" where
  "digit d = char_of (48 + d mod 10)"

definition two_digits :: "nat \<Rightarrow> string" where
  "two_digits n = [digit (n div 10), digit n]"

definition strftime_draft :: "tm \<Rightarrow> string" where
  "strftime_draft t =
     ''draft_'' @ two_digits (tm_year t div 100) @ two_digits (tm_year t) @ ''-'' @
     two_digits (tm_mon t) @ ''-'' @ two_digits (tm_mday t) @ ''_'' @
     two_digits (tm_hour t) @ two_digits (tm_min t) @ ''.md''"

text \<open>
  The part of \<open>main\<close> after the graph has returned its final state. An exception of the
  \<open>with open(...)\<close> block is taken at \<open>open\<close>, before anything is written.
\<close>

definition save_to_markdown ::
  "world \<Rightarrow> DocState \<Rightarrow> string list \<Rightarrow> files \<Rightarrow> error + (files \<times> message list)" where
  "save_to_markdown w final_state stdin fs =
     (let final_content = strip (content final_state)
      in if final_content = [] then Inr (fs, [NothingToSave])
         else
           (let default_name = strftime_draft (localtime w)
            in case input_line stdin of
                 Inl err \<Rightarrow> Inl err
               | Inr (line, rest) \<Rightarrow>
                   (let typed = strip line;
                        fname0 = (if typed \<noteq> [] then typed else default_name);
                        fname = (if \<not> endswith (lower fname0) ''.md''
                                 then fname0 @ ''.md'' else fname0)
                    in case open_error w fname of
                         None \<Rightarrow>
                           Inr (fs(fname \<mapsto> final_content @ ''\<newline>''),
                                [SaveToMarkdown, Saved fname])
                       | Some e \<Rightarrow> Inr (fs, [SaveToMarkdown, FailedToSave e]))))"

definition initial_state :: DocState where
  "initial_state =
     \<lparr>content = [], edited_version = [], suggestions = [], approved = False, iteration = 0\<rparr>"

definition main :: "world \<Rightarrow> string list \<Rightarrow> files \<Rightarrow> error + (files \<times> message list)" where
  "main w stdin fs =
     (case run_graph w (recursion_limit w) Creator initial_state stdin of
        Inl err \<Rightarrow> Inl err
      | Inr (final_state, stdin1, out) \<Rightarrow>
          (case save_to_markdown w final_state stdin1 fs of
             Inl err \<Rightarrow> Inl err
           | Inr (fs1, out1) \<Rightarrow> Inr (fs1, out @ out1)))"

section \<open>The chat front end (\<open>authorChainlit.py\<close>)\<close>

text \<open>
  The values kept in \<open>cl.user_session\<close>, and the messages sent to the chat.
  \<open>ChatActions\<close> is the message \<open>What would you like to do next?\<close> with the five
  action buttons.
\<close>

record session =
  session_content :: string
  session_suggestions :: string
  session_edited_version :: string
  session_context :: "string option"

datatype chat_message =
    ChatNoSuggestions
  | ChatSuggestions string
  | ChatRewritePreview string
  | ChatActions
  | ChatAccepted
  | ChatNothingToAccept
  | ChatNoVersionToDiff
  | ChatDiff string string
  | ChatNothingToSave
  | ChatFinalContent string
  | ChatSaved string
  | ChatFailedToSave string

definition preview_chainlit :: "string \<Rightarrow> string" where
  "preview_chainlit rewrite =
     (if length rewrite > 600 then take 600 rewrite @ ''...'' else rewrite)"

definition display_editor_results :: "session \<Rightarrow> chat_message list" where
  "display_editor_results s =
     (if session_suggestions s = [] \<and> session_edited_version s = []
      then [ChatNoSuggestions]
      else [ChatSuggestions (session_suggestions s)] @
           (if session_edited_version s \<noteq> []
            then [ChatRewritePreview (preview_chainlit (session_edited_version s))] else []) @
           [ChatActions])"

text \<open>
  \<open>editor_review\<close>: nothing catches an exception of the client here, it leaves the
  handler (\<open>Inl e\<close>).
\<close>

definition editor_review :: "llm \<Rightarrow> session \<Rightarrow> string + (session \<times> chat_message list)" where
  "editor_review editor_llm s =
     (if session_content s = [] then Inr (s, [])
      else
        (case editor_llm (editor_prompt (session_content s)) of
           Inl e \<Rightarrow> Inl e
         | Inr response \<Rightarrow>
             (let (sugg, rewritten) = parse_editor_response_chainlit response;
                  s1 = s\<lparr>session_suggestions := sugg, session_edited_version := rewritten\<rparr>
              in Inr (s1, display_editor_results s1))))"

definition on_accept :: "llm \<Rightarrow> session \<Rightarrow> string + (session \<times> chat_message list)" where
  "on_accept editor_llm s =
     (if session_edited_version s \<noteq> []
      then
        (case editor_review editor_llm (s\<lparr>session_content := session_edited_version s\<rparr>) of
           Inl e \<Rightarrow> Inl e
         | Inr (s1, sent) \<Rightarrow> Inr (s1, ChatAccepted # sent))
      else Inr (s, [ChatNothingToAccept]))"


definition on_finish ::
  "tm \<Rightarrow> (string \<Rightarrow> string option) \<Rightarrow> session \<Rightarrow> files \<Rightarrow> files \<times> chat_message list" where
  "on_finish now open_err s fs =
     (if session_content s = [] then (fs, [ChatNothingToSave])
      else
        (let fname = strftime_draft now
         in case open_err fname of
              None \<Rightarrow>
                (fs(fname \<mapsto> session_content s @ ''\<newline>''),
                 [ChatFinalContent (session_content s), ChatSaved fname])
            | Some e \<Rightarrow> (fs, [ChatFinalContent (session_content s), ChatFailedToSave e])))"

section \<open>Vocabulary of the statements and concrete runs\<close>

text \<open>
  \<open>first_marker_spelled text\<close>: when both markers occur, the one that occurs first is
  written in one of the two spellings that the header loops of \<open>author.py\<close> know.
  \<open>has_leading_header\<close>: one of the two sections starts with such a header.
\<close>

definition first_marker_spelled :: "string \<Rightarrow> bool" where
  "first_marker_spelled text =
     (case (find_str (lower text) ''### suggestions'', find_str (lower text) ''### rewritten'') of
        (Some s, Some r) \<Rightarrow>
          (if s < r
           then slice s (s + 15) text \<in> set [''### SUGGESTIONS'', ''### Suggestions'']
           else slice r (r + 13) text \<in> set [''### REWRITTEN'', ''### Rewritten''])
      | _ \<Rightarrow> True)"

definition has_leading_header :: "string \<times> string \<Rightarrow> bool" where
  "has_leading_header sections =
     (startswith (fst sections) ''### SUGGESTIONS'' \<or>
      startswith (fst sections) ''### Suggestions'' \<or>
      startswith (snd sections) ''### REWRITTEN'' \<or>
      startswith (snd sections) ''### Rewritten'')"

text \<open>The file a save step has left under a name, \<open>None\<close> when the step did not return.\<close>

definition saved_file :: "error + (files \<times> message list) \<Rightarrow> string \<Rightarrow> string option" where
  "saved_file result name = (case result of Inl err \<Rightarrow> None | Inr (fs, out) \<Rightarrow> fs name)"

text \<open>The state a run of the graph has ended in, \<open>None\<close> when the run did not return.\<close>

definition final_state_of ::
  "error + (DocState \<times> string list \<times> message list) \<Rightarrow> DocState option" where
  "final_state_of result =
     (case result of Inl err \<Rightarrow> None | Inr (state, stdin, out) \<Rightarrow> Some state)"

text \<open>Clients, worlds and states for the concrete runs below.\<close>

definition failing_llm :: llm where
  "failing_llm prompt = Inl ''quota exceeded''"

definition story_llm :: llm where
  "story_llm prompt = Inr ''D1''"

definition review_llm :: llm where
  "review_llm prompt =
     Inr ''### SUGGESTIONS\<newline>- tighten opening\<newline>\<newline>### REWRITTEN\<newline>D1-improved''"


definition writable :: "string \<Rightarrow> string option" where
  "writable name = None"

definition march_morning :: tm where
  "march_morning = \<lparr>tm_year = 2026, tm_mon = 3, tm_mday = 9, tm_hour = 7, tm_min = 5\<rparr>"

definition working_world :: world where
  "working_world =
     \<lparr>make_creator_llm = Inr story_llm, make_editor_llm = Inr review_llm,
      localtime = march_morning, open_error = writable, recursion_limit = 25\<rparr>"


definition failing_world :: world where
  "failing_world =
     \<lparr>make_creator_llm = Inr failing_llm, make_editor_llm = Inr failing_llm,
      localtime = march_morning, open_error = writable, recursion_limit = 25\<rparr>"

definition reviewed_state :: DocState where
  "reviewed_state =
     \<lparr>content = ''D1'', edited_version = ''D1-improved'', suggestions = ''- tighten opening'',
      approved = False, iteration = 1\<rparr>"

definition unreviewed_state :: DocState where
  "unreviewed_state =
     \<lparr>content = ''D1'', edited_version = [], suggestions = [], approved = False, iteration = 1\<rparr>"

definition padded_state :: DocState where
  "padded_state =
     \<lparr>content = ''Final text\<newline>'', edited_version = [], suggestions = [],
      approved = True, iteration = 1\<rparr>"

definition no_files :: files where
  "no_files = Map.empty"

definition reviewed_session :: session where
  "reviewed_session =
     \<lparr>session_content = ''D1'', session_suggestions = ''- tighten opening'',
      session_edited_version = ''D1-improved'', session_context = None\<rparr>"

definition unreviewed_session :: session where
  "unreviewed_session =
     \<lparr>session_content = ''D1'', session_suggestions = [], session_edited_version = [],
      session_context = None\<rparr>"

section \<open>Properties of the response parsers\<close>

subsection \<open>Searching, slicing and stripping\<close>

lemma find_str_None_iff: "find_str xs sub = None \<longleftrightarrow> \<not> sublist sub xs"
  by (induction xs) (auto simp: sublist_Cons_right)

lemma find_str_prefix: "find_str xs sub = Some i \<Longrightarrow> prefix sub (drop i xs)"
  by (induction xs arbitrary: i) (auto split: if_splits)

lemma find_str_le: "find_str xs sub = Some i \<Longrightarrow> i + length sub \<le> length xs"
proof (induction xs arbitrary: i)
  case Nil
  then show ?case by (simp split: if_splits)
next
  case (Cons c cs)
  then show ?case by (auto split: if_splits dest: prefix_length_le)
qed

lemma find_str_first: "find_str xs sub = Some i \<Longrightarrow> j < i \<Longrightarrow> \<not> prefix sub (drop j xs)"
proof (induction xs arbitrary: i j)
  case Nil
  then show ?case by (simp split: if_splits)
next
  case (Cons c cs)
  then show ?case by (cases j) (auto split: if_splits)
qed

lemma length_lower [simp]: "length (lower xs) = length xs"
  by (simp add: lower_def)

lemma lower_drop: "lower (drop n xs) = drop n (lower xs)"
  by (simp add: lower_def drop_map)

lemma lower_take: "lower (take n xs) = take n (lower xs)"
  by (simp add: lower_def take_map)

lemma lower_append: "lower (xs @ ys) = lower xs @ lower ys"
  by (simp add: lower_def)

text \<open>The two markers cannot overlap: the second starts after the first has ended.\<close>

lemma markers_apart:
  assumes s: "prefix ''### suggestions'' (drop s xs)" and r: "prefix ''### rewritten'' (drop r xs)"
    and sr: "s < r"
  shows "s + 15 \<le> r"
proof (rule ccontr)
  assume "\<not> s + 15 \<le> r"
  define k where "k = r - s"
  with sr \<open>\<not> s + 15 \<le> r\<close> have k: "r = k + s" "0 < k" "k < 15" by auto
  from s obtain rest where rest: "drop s xs = ''### suggestions'' @ rest"
    by (auto simp: prefix_def)
  have "drop r xs = drop k (drop s xs)" using k by simp
  with rest r have p: "prefix ''### rewritten'' (drop k (''### suggestions'' @ rest))" by simp
  from k have "k = 1 \<or> k = 2 \<or> k = 3 \<or> k = 4 \<or> k = 5 \<or> k = 6 \<or> k = 7 \<or> k = 8 \<or>
      k = 9 \<or> k = 10 \<or> k = 11 \<or> k = 12 \<or> k = 13 \<or> k = 14"
    by presburger
  then show False using p by (elim disjE) simp_all
qed

lemma markers_apart_rev:
  assumes r: "prefix ''### rewritten'' (drop r xs)" and s: "prefix ''### suggestions'' (drop s xs)"
    and rs: "r < s"
  shows "r + 13 \<le> s"
proof (rule ccontr)
  assume "\<not> r + 13 \<le> s"
  define k where "k = s - r"
  with rs \<open>\<not> r + 13 \<le> s\<close> have k: "s = k + r" "0 < k" "k < 13" by auto
  from r obtain rest where rest: "drop r xs = ''### rewritten'' @ rest"
    by (auto simp: prefix_def)
  have "drop s xs = drop k (drop r xs)" using k by simp
  with rest s have p: "prefix ''### suggestions'' (drop k (''### rewritten'' @ rest))" by simp
  from k have "k = 1 \<or> k = 2 \<or> k = 3 \<or> k = 4 \<or> k = 5 \<or> k = 6 \<or> k = 7 \<or> k = 8 \<or>
      k = 9 \<or> k = 10 \<or> k = 11 \<or> k = 12"
    by presburger
  then show False using p by (elim disjE) simp_all
qed

lemma markers_differ:
  "prefix ''### suggestions'' ys \<Longrightarrow> prefix ''### rewritten'' ys \<Longrightarrow> False"
  by (auto simp: prefix_def)

lemma slice_split: "i \<le> j \<Longrightarrow> j \<le> k \<Longrightarrow> slice i k xs = slice i j xs @ slice j k xs"
proof -
  assume ij: "i \<le> j" and jk: "j \<le> k"
  have "take (k - i) (drop i xs) = take ((j - i) + (k - j)) (drop i xs)" using ij jk by simp
  also have "\<dots> = take (j - i) (drop i xs) @ take (k - j) (drop (j - i) (drop i xs))"
    by (rule take_add)
  also have "drop (j - i) (drop i xs) = drop j xs" using ij by simp
  finally show ?thesis by (simp add: slice_def)
qed

lemma rstrip_append:
  assumes "a \<noteq> []" "\<not> is_space (last a)"
  shows "rstrip (a @ b) = a @ rstrip b"
proof -
  have "dropWhile is_space (rev a) = rev a"
    using assms by (cases "rev a") (auto simp: last_rev [symmetric] simp del: last_rev) 
  then show ?thesis
    by (simp add: rstrip_def dropWhile_append)
qed

lemma lstrip_append:
  assumes "a \<noteq> []" "\<not> is_space (hd a)"
  shows "lstrip (a @ b) = a @ b"
  using assms by (cases a) (auto simp: lstrip_def)

lemma strip_append:
  assumes "a \<noteq> []" "\<not> is_space (hd a)" "\<not> is_space (last a)"
  shows "strip (a @ b) = a @ rstrip b"
  using assms by (simp add: strip_def rstrip_append lstrip_append)

lemma rstrip_idem: "rstrip (rstrip b) = rstrip b"
proof -
  have "dropWhile is_space (dropWhile is_space ys) = dropWhile is_space ys" for ys
    by (simp add: dropWhile_idem)
  then show ?thesis by (simp add: rstrip_def)
qed

lemma strip_rstrip: "strip (rstrip b) = strip b"
  by (simp add: strip_def rstrip_idem)

lemma clean_headers_unchanged:
  "\<not> startswith x h1 \<Longrightarrow> \<not> startswith x h2 \<Longrightarrow> clean_headers [h1, h2] x = x"
  by (simp add: clean_headers_def)

lemma clean_suggestions_marker:
  assumes "m \<in> set [''### SUGGESTIONS'', ''### Suggestions'']"
    and "\<not> startswith (strip mid) ''### SUGGESTIONS''" "\<not> startswith (strip mid) ''### Suggestions''"
  shows "clean_headers [''### SUGGESTIONS'', ''### Suggestions''] (strip (m @ mid)) = strip mid"
proof -
  have ends: "m \<noteq> []" "\<not> is_space (hd m)" "\<not> is_space (last m)" "length m = 15"
    using assms(1) by (auto simp: is_space_def)
  then have s: "strip (m @ mid) = m @ rstrip mid" by (simp add: strip_append)
  show ?thesis
    using assms ends(4) unfolding s
    by (auto simp: clean_headers_def startswith_def strip_rstrip)
qed

lemma clean_rewritten_marker:
  assumes "m \<in> set [''### REWRITTEN'', ''### Rewritten'']"
    and "\<not> startswith (strip mid) ''### REWRITTEN''" "\<not> startswith (strip mid) ''### Rewritten''"
  shows "clean_headers [''### REWRITTEN'', ''### Rewritten''] (strip (m @ mid)) = strip mid"
proof -
  have ends: "m \<noteq> []" "\<not> is_space (hd m)" "\<not> is_space (last m)" "length m = 13"
    using assms(1) by (auto simp: is_space_def)
  then have s: "strip (m @ mid) = m @ rstrip mid" by (simp add: strip_append)
  show ?thesis
    using assms ends(4) unfolding s
    by (auto simp: clean_headers_def startswith_def strip_rstrip)
qed

lemma marker_lengths:
  "length ''### suggestions'' = 15" "length ''### SUGGESTIONS'' = 15"
  "length ''### rewritten'' = 13" "length ''### REWRITTEN'' = 13"
  by simp_all

lemma chainlit_both:
  assumes "find_str (lower text) ''### suggestions'' = Some s"
    and "find_str (lower text) ''### rewritten'' = Some r"
  shows "parse_editor_response_chainlit text =
     (if s < r then (strip (slice (s + 15) r text), strip (drop (r + 13) text))
      else (strip (drop (s + 15) text), strip (slice (r + 13) s text)))"
  unfolding parse_editor_response_chainlit_def Let_def marker_lengths assms by simp

lemma author_both:
  assumes "find_str (lower text) ''### suggestions'' = Some s"
    and "find_str (lower text) ''### rewritten'' = Some r"
  shows "parse_editor_response text =
     (if s < r
      then (clean_headers [''### SUGGESTIONS'', ''### Suggestions''] (strip (slice s r text)),
            clean_headers [''### REWRITTEN'', ''### Rewritten''] (strip (drop (r + 13) text)))
      else (clean_headers [''### SUGGESTIONS'', ''### Suggestions''] (strip (drop (s + 15) text)),
            clean_headers [''### REWRITTEN'', ''### Rewritten''] (strip (slice r s text))))"
  unfolding parse_editor_response_def Let_def marker_lengths assms by simp


subsection \<open>A missing marker\<close>

text \<open>
  Claim C2. Whenever one of the two markers does not occur in the lower-cased text, both
  parsers return the whole text stripped, with an empty rewrite. The parsers are total
  functions into pairs of strings: no step of them (\<open>lower\<close>, \<open>find\<close>, slicing,
  \<open>strip\<close>) can raise, and there is no result other than a pair.
\<close>

theorem parse_missing_marker:
  "\<not> sublist ''### suggestions'' (lower text) \<or> \<not> sublist ''### rewritten'' (lower text) \<Longrightarrow>
   parse_editor_response text = (strip text, []) \<and>
   parse_editor_response_chainlit text = (strip text, [])"
  by (auto simp: parse_editor_response_def parse_editor_response_chainlit_def Let_def
      find_str_None_iff [symmetric] split: option.splits)

theorem parse_missing_marker_witness:
  "parse_editor_response ''  Looks fine. ### REWRITTEN is not needed  '' =
     (''Looks fine. ### REWRITTEN is not needed'', []) \<and>
   parse_editor_response_chainlit ''  Looks fine. ### REWRITTEN is not needed  '' =
     (''Looks fine. ### REWRITTEN is not needed'', [])"
proof -
  have absent: "\<not> sublist ''### suggestions'' (lower ''  Looks fine. ### REWRITTEN is not needed  '')"
    by code_simp
  have trimmed: "strip ''  Looks fine. ### REWRITTEN is not needed  '' =
      ''Looks fine. ### REWRITTEN is not needed''"
    by code_simp
  show ?thesis
    using parse_missing_marker [of "''  Looks fine. ### REWRITTEN is not needed  ''"] absent trimmed
    by simp
qed


subsection \<open>Both markers, in either order\<close>

text \<open>
  Where a marker is found: at the end of \<open>a\<close> in \<open>a @ sub @ b\<close> when \<open>sub\<close> does
  not occur earlier. With it, the parser of \<open>authorChainlit.py\<close> is described on the
  text itself, for the texts of this model (code points below 256): when the first
  occurrences of the two markers, in any casing, cut the text into \<open>pre\<close>, \<open>mid\<close> and
  \<open>post\<close>, it returns the stripped text behind each marker, in either order of the
  markers.
\<close>

lemma find_str_at:
  assumes "sub \<noteq> []" and "\<not> sublist sub (a @ butlast sub)"
  shows "find_str (a @ sub @ b) sub = Some (length a)"
  using assms(2)
proof (induction a)
  case Nil
  with assms(1) show ?case by (cases sub) simp_all
next
  case (Cons c a)
  have no_later: "\<not> sublist sub (a @ butlast sub)"
    using Cons.prems by (simp add: sublist_Cons_right)
  have not_here: "\<not> prefix sub (c # a @ sub @ b)"
  proof
    assume p: "prefix sub (c # a @ sub @ b)"
    have q: "prefix (c # a @ butlast sub) (c # a @ sub @ b)"
      using assms(1) by (simp add: prefix_def) (metis append_butlast_last_id append_assoc)
    have "length sub \<le> length (c # a @ butlast sub)" using assms(1) by simp
    with p q have "prefix sub (c # a @ butlast sub)" by (rule prefix_length_prefix)
    then have "sublist sub (c # a @ butlast sub)" by (rule prefix_imp_sublist)
    with Cons.prems show False by simp
  qed
  from Cons.IH [OF no_later] not_here show ?case by simp
qed

lemma chainlit_in_order:
  assumes m1: "lower m1 = ''### suggestions''" and m2: "lower m2 = ''### rewritten''"
    and first1: "\<not> sublist ''### suggestions'' (lower pre @ butlast ''### suggestions'')"
    and first2: "\<not> sublist ''### rewritten'' (lower (pre @ m1 @ mid) @ butlast ''### rewritten'')"
  shows "parse_editor_response_chainlit (pre @ m1 @ mid @ m2 @ post) = (strip mid, strip post)"
proof -
  let ?text = "pre @ m1 @ mid @ m2 @ post"
  have l1: "length m1 = 15" using arg_cong [OF m1, of length] by simp
  have l2: "length m2 = 13" using arg_cong [OF m2, of length] by simp
  have "lower ?text = lower pre @ ''### suggestions'' @ lower (mid @ m2 @ post)"
    by (simp add: lower_append m1)
  then have fs: "find_str (lower ?text) ''### suggestions'' = Some (length pre)"
    using find_str_at [OF _ first1, of "lower (mid @ m2 @ post)"] by simp
  have "lower ?text = lower (pre @ m1 @ mid) @ ''### rewritten'' @ lower post"
    by (simp add: lower_append m2)
  then have fr: "find_str (lower ?text) ''### rewritten'' = Some (length pre + 15 + length mid)"
    using find_str_at [OF _ first2, of "lower post"] l1 by simp
  have mid: "slice (length pre + 15) (length pre + 15 + length mid) ?text = mid"
    using l1 by (simp add: slice_def)
  have post: "drop (length pre + 15 + length mid + 13) ?text = post"
    using l1 l2 by simp
  show ?thesis
    unfolding chainlit_both [OF fs fr] using mid post by simp
qed

lemma chainlit_reversed:
  assumes m1: "lower m1 = ''### suggestions''" and m2: "lower m2 = ''### rewritten''"
    and first2: "\<not> sublist ''### rewritten'' (lower pre @ butlast ''### rewritten'')"
    and first1: "\<not> sublist ''### suggestions'' (lower (pre @ m2 @ mid) @ butlast ''### suggestions'')"
  shows "parse_editor_response_chainlit (pre @ m2 @ mid @ m1 @ post) = (strip post, strip mid)"
proof -
  let ?text = "pre @ m2 @ mid @ m1 @ post"
  have l1: "length m1 = 15" using arg_cong [OF m1, of length] by simp
  have l2: "length m2 = 13" using arg_cong [OF m2, of length] by simp
  have "lower ?text = lower pre @ ''### rewritten'' @ lower (mid @ m1 @ post)"
    by (simp add: lower_append m2)
  then have fr: "find_str (lower ?text) ''### rewritten'' = Some (length pre)"
    using find_str_at [OF _ first2, of "lower (mid @ m1 @ post)"] by simp
  have "lower ?text = lower (pre @ m2 @ mid) @ ''### suggestions'' @ lower post"
    by (simp add: lower_append m1)
  then have fs: "find_str (lower ?text) ''### suggestions'' = Some (length pre + 13 + length mid)"
    using find_str_at [OF _ first1, of "lower post"] l2 by simp
  have mid: "slice (length pre + 13) (length pre + 13 + length mid) ?text = mid"
    using l2 by (simp add: slice_def)
  have post: "drop (length pre + 13 + length mid + 15) ?text = post"
    using l1 l2 by simp
  show ?thesis
    unfolding chainlit_both [OF fs fr] using mid post by simp
qed

text \<open>
  Claim C1, on a response whose markers are written in lower case. The parser of
  \<open>author.py\<close> slices from the start of the first marker and then removes the header
  only in the spellings \<open>### SUGGESTIONS\<close> and \<open>### Suggestions\<close>, although it
  has found the marker without regard to case: the marker stays in the suggestions. The
  parser of \<open>authorChainlit.py\<close> slices behind the marker and returns the text between
  the markers.
\<close>

theorem author_keeps_suggestions_marker:
  "parse_editor_response
     ''### suggestions\<newline>fix typo\<newline>### rewritten\<newline>Hello'' =
     (''### suggestions\<newline>fix typo'', ''Hello'') \<and>
   parse_editor_response_chainlit
     ''### suggestions\<newline>fix typo\<newline>### rewritten\<newline>Hello'' =
     (''fix typo'', ''Hello'')"
  by code_simp

text \<open>
  Claim C7, on a response with the markers in reverse order and in lower case. In
  \<open>author.py\<close> the rewrite is sliced from the start of its marker, and the header loop
  removes only \<open>### REWRITTEN\<close> and \<open>### Rewritten\<close>: the marker stays in the
  rewrite. The parser of \<open>authorChainlit.py\<close> gives each field the text after its own
  marker.
\<close>

theorem author_keeps_rewritten_marker:
  "parse_editor_response
     ''### rewritten\<newline>Hello\<newline>### suggestions\<newline>fix typo'' =
     (''fix typo'', ''### rewritten\<newline>Hello'') \<and>
   parse_editor_response_chainlit
     ''### rewritten\<newline>Hello\<newline>### suggestions\<newline>fix typo'' =
     (''fix typo'', ''Hello'')"
  by code_simp

subsection \<open>The two parsers compared\<close>

text \<open>
  Claim C8, amended. On texts whose lower-casing keeps the length (every text of code
  points below 256, the texts of this model), the two parsers return the same pair
  whenever a marker is missing, and whenever both markers occur and the marker that
  comes first is spelled \<open>### SUGGESTIONS\<close> or \<open>### Suggestions\<close> (\<open>### REWRITTEN\<close>
  or \<open>### Rewritten\<close> when the rewrite comes first), provided that neither section
  returned by the parser of \<open>authorChainlit.py\<close> itself starts with one of these
  headers. They do not agree on every text: \<open>author.py\<close> removes a header that leads
  a section, \<open>authorChainlit.py\<close> has no such step.
\<close>

theorem parsers_agree:
  assumes spelled: "first_marker_spelled text"
    and plain: "\<not> has_leading_header (parse_editor_response_chainlit text)"
  shows "parse_editor_response text = parse_editor_response_chainlit text"
proof (cases "find_str (lower text) ''### suggestions''")
  case None
  then show ?thesis
    by (simp add: parse_editor_response_def parse_editor_response_chainlit_def)
next
  case (Some s)
  note fs = this
  show ?thesis
  proof (cases "find_str (lower text) ''### rewritten''")
    case None
    then show ?thesis
      by (simp add: parse_editor_response_def parse_editor_response_chainlit_def fs)
  next
    case (Some r)
    note fr = this
    have ps: "prefix ''### suggestions'' (drop s (lower text))" using fs by (rule find_str_prefix)
    have pr: "prefix ''### rewritten'' (drop r (lower text))" using fr by (rule find_str_prefix)
    show ?thesis
    proof (cases "s < r")
      case True
      have apart: "s + 15 \<le> r" using ps pr True by (rule markers_apart)
      have split: "slice s r text = slice s (s + 15) text @ slice (s + 15) r text"
        using apart by (intro slice_split) simp_all
      have m: "slice s (s + 15) text \<in> set [''### SUGGESTIONS'', ''### Suggestions'']"
        using spelled True by (simp add: first_marker_spelled_def fs fr)
      have cl: "parse_editor_response_chainlit text =
          (strip (slice (s + 15) r text), strip (drop (r + 13) text))"
        using True by (simp add: chainlit_both [OF fs fr])
      from plain have nh:
        "\<not> startswith (strip (slice (s + 15) r text)) ''### SUGGESTIONS''"
        "\<not> startswith (strip (slice (s + 15) r text)) ''### Suggestions''"
        "\<not> startswith (strip (drop (r + 13) text)) ''### REWRITTEN''"
        "\<not> startswith (strip (drop (r + 13) text)) ''### Rewritten''"
        unfolding cl has_leading_header_def by simp_all
      have a: "parse_editor_response text =
          (clean_headers [''### SUGGESTIONS'', ''### Suggestions'']
             (strip (slice s (s + 15) text @ slice (s + 15) r text)),
           clean_headers [''### REWRITTEN'', ''### Rewritten''] (strip (drop (r + 13) text)))"
        using True by (simp add: author_both [OF fs fr] split)
      show ?thesis
        unfolding a cl
        using clean_suggestions_marker [OF m nh(1) nh(2)] clean_headers_unchanged [OF nh(3) nh(4)]
        by simp
    next
      case False
      have "s \<noteq> r" using ps pr markers_differ by blast
      with False have rs: "r < s" by simp
      have apart: "r + 13 \<le> s" using pr ps rs by (rule markers_apart_rev)
      have split: "slice r s text = slice r (r + 13) text @ slice (r + 13) s text"
        using apart by (intro slice_split) simp_all
      have m: "slice r (r + 13) text \<in> set [''### REWRITTEN'', ''### Rewritten'']"
        using spelled False by (simp add: first_marker_spelled_def fs fr)
      have cl: "parse_editor_response_chainlit text =
          (strip (drop (s + 15) text), strip (slice (r + 13) s text))"
        using False by (simp add: chainlit_both [OF fs fr])
      from plain have nh:
        "\<not> startswith (strip (drop (s + 15) text)) ''### SUGGESTIONS''"
        "\<not> startswith (strip (drop (s + 15) text)) ''### Suggestions''"
        "\<not> startswith (strip (slice (r + 13) s text)) ''### REWRITTEN''"
        "\<not> startswith (strip (slice (r + 13) s text)) ''### Rewritten''"
        unfolding cl has_leading_header_def by simp_all
      have a: "parse_editor_response text =
          (clean_headers [''### SUGGESTIONS'', ''### Suggestions''] (strip (drop (s + 15) text)),
           clean_headers [''### REWRITTEN'', ''### Rewritten'']
             (strip (slice r (r + 13) text @ slice (r + 13) s text)))"
        using False by (simp add: author_both [OF fs fr] split)
      show ?thesis
        unfolding a cl
        using clean_rewritten_marker [OF m nh(3) nh(4)] clean_headers_unchanged [OF nh(1) nh(2)]
        by simp
    qed
  qed
qed

theorem parsers_agree_witness:
  "first_marker_spelled
     ''### SUGGESTIONS\<newline>- tighten opening\<newline>\<newline>### REWRITTEN\<newline>D1-improved'' \<and>
   \<not> has_leading_header (parse_editor_response_chainlit
     ''### SUGGESTIONS\<newline>- tighten opening\<newline>\<newline>### REWRITTEN\<newline>D1-improved'') \<and>
   parse_editor_response
     ''### SUGGESTIONS\<newline>- tighten opening\<newline>\<newline>### REWRITTEN\<newline>D1-improved'' =
   parse_editor_response_chainlit
     ''### SUGGESTIONS\<newline>- tighten opening\<newline>\<newline>### REWRITTEN\<newline>D1-improved''"
proof -
  have spelled: "first_marker_spelled
     ''### SUGGESTIONS\<newline>- tighten opening\<newline>\<newline>### REWRITTEN\<newline>D1-improved''"
    by code_simp
  have plain: "\<not> has_leading_header (parse_editor_response_chainlit
     ''### SUGGESTIONS\<newline>- tighten opening\<newline>\<newline>### REWRITTEN\<newline>D1-improved'')"
    by code_simp
  from parsers_agree [OF spelled plain] spelled plain show ?thesis by blast
qed

theorem parsers_differ_counterexample:
  "parse_editor_response
     ''### SUGGESTIONS\<newline>- shorten\<newline>### REWRITTEN\<newline>### REWRITTEN\<newline>Hello'' =
     (''- shorten'', ''Hello'') \<and>
   parse_editor_response_chainlit
     ''### SUGGESTIONS\<newline>- shorten\<newline>### REWRITTEN\<newline>### REWRITTEN\<newline>Hello'' =
     (''- shorten'', ''### REWRITTEN\<newline>Hello'') \<and>
   parse_editor_response
     ''### SUGGESTIONS\<newline>- shorten\<newline>### REWRITTEN\<newline>### REWRITTEN\<newline>Hello'' \<noteq>
   parse_editor_response_chainlit
     ''### SUGGESTIONS\<newline>- shorten\<newline>### REWRITTEN\<newline>### REWRITTEN\<newline>Hello''"
  by code_simp

section \<open>Properties of the turn controller\<close>

subsection \<open>Node results and the two branches of \<open>creator_node\<close>\<close>

lemma route_end: "(route_after_creator s = ''end'') = approved s"
  by (simp add: route_after_creator_def)

lemma apply_iteration:
  "apply_update st (no_update\<lparr>iteration_upd := Some n\<rparr>) = st\<lparr>iteration := n\<rparr>"
  by (cases st) (simp add: apply_update_def no_update_def)

lemma apply_approved:
  "apply_update st (no_update\<lparr>approved_upd := Some b\<rparr>) = st\<lparr>approved := b\<rparr>"
  by (cases st) (simp add: apply_update_def no_update_def)

lemma apply_content:
  "apply_update st (no_update\<lparr>content_upd := Some c, iteration_upd := Some n\<rparr>) =
     st\<lparr>content := c, iteration := n\<rparr>"
  by (cases st) (simp add: apply_update_def no_update_def)

lemma apply_review:
  "apply_update st (no_update\<lparr>suggestions_upd := Some s, edited_version_upd := Some r\<rparr>) =
     st\<lparr>suggestions := s, edited_version := r\<rparr>"
  by (cases st) (simp add: apply_update_def no_update_def)


lemma strip_Nil: "strip [] = []"
  by (simp add: strip_def lstrip_def rstrip_def)

lemma read_multiline_done:
  "strip l = ''/done'' \<Longrightarrow> read_multiline (l # rest) = ([], rest)"
  by (simp add: read_multiline_def strip_Nil)

text \<open>
  Past the first generation, \<open>creator_node\<close> prints the editor's results and the menu,
  reads one line and dispatches on it.
\<close>

lemma creator_node_menu:
  assumes "\<not> (iteration st = 0 \<and> content st = [])"
  shows "creator_node llm st (line # rest) =
     (let shown =
            [if suggestions st \<noteq> [] then EditorSuggestions (suggestions st)
             else NoSuggestionsReturned] @
            (if edited_version st \<noteq> []
             then [RewrittenPreview (preview (edited_version st))] else []) @
            [Menu];
          choice = strip line
      in if choice = ''1'' then
           (if edited_version st \<noteq> []
            then Inr (no_update\<lparr>content_upd := Some (edited_version st),
                                  iteration_upd := Some (iteration st + 1)\<rparr>,
                      rest, shown @ [AcceptedRewrite])
            else Inr (no_update\<lparr>iteration_upd := Some (iteration st + 1)\<rparr>,
                      rest, shown @ [NothingToAccept]))
         else if choice = ''2'' then
           (let (new_text, stdin2) = read_multiline rest
            in if new_text \<noteq> []
               then Inr (no_update\<lparr>content_upd := Some new_text,
                                     iteration_upd := Some (iteration st + 1)\<rparr>,
                         stdin2, shown @ [Prompt ''Edit your draft. Type /done when finished:''])
               else Inr (no_update\<lparr>iteration_upd := Some (iteration st + 1)\<rparr>,
                         stdin2, shown @ [Prompt ''Edit your draft. Type /done when finished:'', NoChangesMade]))
         else if choice = ''3'' then
           (let how = ''Describe how you'd like the AI to revise (tone, length, audience, etc.).\<newline>Type /done when finished:'';
                (user_instr, stdin2) = read_multiline rest
            in if strip user_instr = []
               then Inr (no_update\<lparr>iteration_upd := Some (iteration st + 1)\<rparr>,
                         stdin2, shown @ [Prompt how, NoInstructions])
               else
                 (case llm (revise_prompt (content st) user_instr) of
                    Inr revised \<Rightarrow>
                      Inr (no_update\<lparr>content_upd := Some revised,
                                      iteration_upd := Some (iteration st + 1)\<rparr>,
                           stdin2, shown @ [Prompt how, RevisionComplete])
                  | Inl e \<Rightarrow>
                      Inr (no_update\<lparr>iteration_upd := Some (iteration st + 1)\<rparr>,
                           stdin2, shown @ [Prompt how, RevisionError e])))
         else if choice = ''4'' then
           Inr (no_update\<lparr>iteration_upd := Some (iteration st + 1)\<rparr>, rest,
                shown @
                [if edited_version st \<noteq> []
                 then Diff (content st) (edited_version st)
                 else NoVersionToDiff])
         else if choice = ''5'' then
           Inr (no_update\<lparr>approved_upd := Some True\<rparr>, rest, shown)
         else
           Inr (no_update\<lparr>iteration_upd := Some (iteration st + 1)\<rparr>, rest,
                shown @ [InvalidChoice]))"
proof -
  from assms have first: "(iteration st = 0 \<and> content st = []) = False" by simp
  show ?thesis
    unfolding creator_node_def input_line_def first by (simp add: Let_def)
qed

text \<open>The first pass, on the empty draft: the idea is read and the story is generated.\<close>

lemma creator_node_first:
  assumes "iteration st = 0" "content st = []"
  shows "creator_node llm st stdin =
     (let what = ''What story would you like to create? Provide a suggestion or idea.\<newline>Type /done when finished.'';
          (suggestion, stdin1) = read_multiline stdin
      in if suggestion = []
         then Inr (no_update\<lparr>approved_upd := Some True\<rparr>, stdin1,
                   [Welcome, Prompt what, NoSuggestionEntered])
         else
           (case llm (initial_prompt suggestion) of
              Inr initial_content \<Rightarrow>
                Inr (no_update\<lparr>content_upd := Some initial_content,
                                iteration_upd := Some (iteration st + 1)\<rparr>,
                     stdin1, [Welcome, Prompt what, GeneratedInitialStory])
            | Inl e \<Rightarrow>
                Inr (no_update\<lparr>approved_upd := Some True\<rparr>, stdin1,
                     [Welcome, Prompt what, InitialGenerationError e])))"
  unfolding creator_node_def using assms by simp

subsection \<open>Manual edit without text\<close>

text \<open>
  Claim C10. In the terminal front end, past the first generation and while the session
  is not finished, the choice \<open>2\<close> followed at once by a line \<open>/done\<close> leaves the
  content as it is (only the iteration counter moves), prints \<open>(No changes made.)\<close>
  and hands over to the editor node: the session continues.
\<close>

theorem manual_edit_without_text:
  assumes "make_creator_llm w = Inr CREATOR_LLM"
    and "\<not> (iteration st = 0 \<and> content st = [])" and "\<not> approved st"
    and "strip choice_line = ''2''" and "strip done_line = ''/done''"
  shows "\<exists>out. creator_step w st (choice_line # done_line # rest) =
             Inr (Editor, st\<lparr>iteration := iteration st + 1\<rparr>, rest, out) \<and>
           NoChangesMade \<in> set out \<and>
           content (st\<lparr>iteration := iteration st + 1\<rparr>) = content st"
  using assms
  by (simp add: creator_step_def creator_node_menu read_multiline_done Let_def
        apply_iteration route_end)

theorem manual_edit_without_text_witness:
  "\<exists>out. creator_step working_world reviewed_state ['' 2 '', ''/done'', ''5''] =
           Inr (Editor, reviewed_state\<lparr>iteration := 2\<rparr>, [''5''], out) \<and>
         NoChangesMade \<in> set out \<and>
         content (reviewed_state\<lparr>iteration := 2\<rparr>) = ''D1''"
proof -
  have client: "make_creator_llm working_world = Inr story_llm"
    by (simp add: working_world_def)
  have menu: "\<not> (iteration reviewed_state = 0 \<and> content reviewed_state = [])"
    by (simp add: reviewed_state_def)
  have running: "\<not> approved reviewed_state" by (simp add: reviewed_state_def)
  have choice: "strip '' 2 '' = ''2''" by code_simp
  have sentinel: "strip ''/done'' = ''/done''" by code_simp
  from manual_edit_without_text [OF client menu running choice sentinel, of "[''5'']"]
  show ?thesis by (simp add: reviewed_state_def)
qed

subsection \<open>Show diff\<close>





subsection \<open>Accept without a rewrite\<close>

text \<open>
  Claim C5, amended. Accepting when the rewrite is empty leaves the content unchanged,
  raises nothing and reports that there is nothing to accept. In the terminal front end
  the iteration counter is incremented and the graph goes on to the editor node, as
  after every menu choice but Finish. In the chat front end the session is unchanged,
  no editor review is started, and the report is the only message sent.
\<close>

theorem accept_without_rewrite:
  assumes "make_creator_llm w = Inr CREATOR_LLM"
    and "\<not> (iteration st = 0 \<and> content st = [])" and "\<not> approved st"
    and "edited_version st = []" and "strip choice_line = ''1''"
    and "session_edited_version s = []"
  shows "(\<exists>out. creator_step w st (choice_line # rest) =
             Inr (Editor, st\<lparr>iteration := iteration st + 1\<rparr>, rest, out) \<and>
           NothingToAccept \<in> set out \<and>
           content (st\<lparr>iteration := iteration st + 1\<rparr>) = content st) \<and>
         on_accept editor_llm s = Inr (s, [ChatNothingToAccept])"
  using assms
  by (simp add: creator_step_def creator_node_menu Let_def apply_iteration route_end on_accept_def)

theorem accept_without_rewrite_witness:
  "(\<exists>out. creator_step working_world unreviewed_state [''1'', ''5''] =
           Inr (Editor, unreviewed_state\<lparr>iteration := 2\<rparr>, [''5''], out) \<and>
         NothingToAccept \<in> set out \<and>
         content (unreviewed_state\<lparr>iteration := 2\<rparr>) = ''D1'') \<and>
   on_accept review_llm unreviewed_session = Inr (unreviewed_session, [ChatNothingToAccept])"
proof -
  have client: "make_creator_llm working_world = Inr story_llm"
    by (simp add: working_world_def)
  have menu: "\<not> (iteration unreviewed_state = 0 \<and> content unreviewed_state = [])"
    by (simp add: unreviewed_state_def)
  have running: "\<not> approved unreviewed_state" by (simp add: unreviewed_state_def)
  have none: "edited_version unreviewed_state = []" by (simp add: unreviewed_state_def)
  have choice: "strip ''1'' = ''1''" by code_simp
  have chat: "session_edited_version unreviewed_session = []"
    by (simp add: unreviewed_session_def)
  from accept_without_rewrite [OF client menu running none choice chat, of "[''5'']" review_llm]
  show ?thesis by (simp add: unreviewed_state_def)
qed

theorem accept_goes_to_editor_counterexample:
  "creator_step working_world unreviewed_state [''1''] =
     Inr (Editor, unreviewed_state\<lparr>iteration := 2\<rparr>, [],
          [NoSuggestionsReturned, Menu, NothingToAccept]) \<and>
   editor_step working_world (unreviewed_state\<lparr>iteration := 2\<rparr>) [] =
     Inr (Creator,
          unreviewed_state\<lparr>iteration := 2, suggestions := ''- tighten opening'',
                            edited_version := ''D1-improved''\<rparr>,
          [], [EditorReview 2]) \<and>
   on_accept review_llm unreviewed_session = Inr (unreviewed_session, [ChatNothingToAccept])"
  by code_simp

subsection \<open>Failing calls of the language model\<close>

text \<open>
  Claim C3, amended. Every failing call is caught where it is made and reported, and the
  loop goes on, but the state is not left as it was. A failing editor call keeps content,
  iteration and the finished flag, sets the suggestions to a fixed notice and empties the
  rewrite; the graph returns to the creator node. A failing revision keeps content,
  suggestions, rewrite and the finished flag, adds one to the iteration counter and hands
  over to the editor node. A failing first generation sets the finished flag and ends the
  run with the content still empty.
\<close>

theorem role_call_failure_handled:
  assumes "make_creator_llm w = Inr CREATOR_LLM" and "make_editor_llm w = Inr EDITOR_LLM"
  shows
    "(strip (content st) \<noteq> [] \<and> EDITOR_LLM (editor_prompt (strip (content st))) = Inl e \<longrightarrow>
        editor_step w st stdin =
          Inr (Creator,
               st\<lparr>suggestions := ''(Editor call failed. You can continue editing manually.)'',
                  edited_version := []\<rparr>,
               stdin, [EditorReview (iteration st), EditorCallError e])) \<and>
     (\<not> (iteration st = 0 \<and> content st = []) \<and> \<not> approved st \<and> strip choice_line = ''3'' \<and>
      read_multiline rest = (user_instr, rest1) \<and> strip user_instr \<noteq> [] \<and>
      CREATOR_LLM (revise_prompt (content st) user_instr) = Inl e \<longrightarrow>
        (\<exists>out. creator_step w st (choice_line # rest) =
                 Inr (Editor, st\<lparr>iteration := iteration st + 1\<rparr>, rest1, out) \<and>
               RevisionError e \<in> set out)) \<and>
     (iteration st = 0 \<and> content st = [] \<and> read_multiline stdin = (idea, stdin1) \<and> idea \<noteq> [] \<and>
      CREATOR_LLM (initial_prompt idea) = Inl e \<longrightarrow>
        (\<exists>out. creator_step w st stdin = Inr (END, st\<lparr>approved := True\<rparr>, stdin1, out) \<and>
               InitialGenerationError e \<in> set out \<and>
               content (st\<lparr>approved := True\<rparr>) = []))"
proof (intro conjI impI)
  assume "strip (content st) \<noteq> [] \<and> EDITOR_LLM (editor_prompt (strip (content st))) = Inl e"
  then show "editor_step w st stdin =
          Inr (Creator,
               st\<lparr>suggestions := ''(Editor call failed. You can continue editing manually.)'',
                  edited_version := []\<rparr>,
               stdin, [EditorReview (iteration st), EditorCallError e])"
    using assms by (simp add: editor_step_def editor_node_def Let_def apply_review)
next
  assume a: "\<not> (iteration st = 0 \<and> content st = []) \<and> \<not> approved st \<and> strip choice_line = ''3'' \<and>
      read_multiline rest = (user_instr, rest1) \<and> strip user_instr \<noteq> [] \<and>
      CREATOR_LLM (revise_prompt (content st) user_instr) = Inl e"
  then have menu: "\<not> (iteration st = 0 \<and> content st = [])" by blast
  show "\<exists>out. creator_step w st (choice_line # rest) =
                 Inr (Editor, st\<lparr>iteration := iteration st + 1\<rparr>, rest1, out) \<and>
               RevisionError e \<in> set out"
    using a assms
    by (simp add: creator_step_def creator_node_menu [OF menu] Let_def apply_iteration route_end)
next
  assume a: "iteration st = 0 \<and> content st = [] \<and> read_multiline stdin = (idea, stdin1) \<and> idea \<noteq> [] \<and>
      CREATOR_LLM (initial_prompt idea) = Inl e"
  then have first: "iteration st = 0" "content st = []" by blast+
  show "\<exists>out. creator_step w st stdin = Inr (END, st\<lparr>approved := True\<rparr>, stdin1, out) \<and>
               InitialGenerationError e \<in> set out \<and>
               content (st\<lparr>approved := True\<rparr>) = []"
    using a assms
    by (simp add: creator_step_def creator_node_first [OF first] Let_def apply_approved route_end)
qed

theorem role_call_failure_handled_witness:
  "editor_step failing_world reviewed_state [''5''] =
     Inr (Creator,
          reviewed_state\<lparr>suggestions := ''(Editor call failed. You can continue editing manually.)'',
                          edited_version := []\<rparr>,
          [''5''], [EditorReview 1, EditorCallError ''quota exceeded'']) \<and>
   (\<exists>out. creator_step failing_world reviewed_state [''3'', ''shorter'', ''/done'', ''5''] =
           Inr (Editor, reviewed_state\<lparr>iteration := 2\<rparr>, [''5''], out) \<and>
         RevisionError ''quota exceeded'' \<in> set out) \<and>
   (\<exists>out. creator_step failing_world initial_state [''a lighthouse keeper'', ''/done''] =
           Inr (END, initial_state\<lparr>approved := True\<rparr>, [], out) \<and>
         InitialGenerationError ''quota exceeded'' \<in> set out \<and>
         content (initial_state\<lparr>approved := True\<rparr>) = [])"
proof -
  have creator: "make_creator_llm failing_world = Inr failing_llm"
    and editor: "make_editor_llm failing_world = Inr failing_llm"
    by (simp_all add: failing_world_def)
  note t = role_call_failure_handled [OF creator editor]
  have fails: "failing_llm p = Inl ''quota exceeded''" for p by (simp add: failing_llm_def)
  have draft: "strip (content reviewed_state) \<noteq> []" by code_simp
  have menu: "\<not> (iteration reviewed_state = 0 \<and> content reviewed_state = [])"
    "\<not> approved reviewed_state"
    by (simp_all add: reviewed_state_def)
  have choice: "strip ''3'' = ''3''" by code_simp
  have instr: "read_multiline [''shorter'', ''/done'', ''5''] = (''shorter'', [''5''])" by code_simp
  have given: "strip ''shorter'' \<noteq> []" by code_simp
  have first: "iteration initial_state = 0" "content initial_state = []"
    by (simp_all add: initial_state_def)
  have idea: "read_multiline [''a lighthouse keeper'', ''/done''] = (''a lighthouse keeper'', [])"
    by code_simp
  have a: "editor_step failing_world reviewed_state [''5''] =
     Inr (Creator,
          reviewed_state\<lparr>suggestions := ''(Editor call failed. You can continue editing manually.)'',
                          edited_version := []\<rparr>,
          [''5''], [EditorReview 1, EditorCallError ''quota exceeded''])"
    using t [where st = reviewed_state and e = "''quota exceeded''" and stdin = "[''5'']"]
      draft fails
    by (simp add: reviewed_state_def)
  have b: "\<exists>out. creator_step failing_world reviewed_state [''3'', ''shorter'', ''/done'', ''5''] =
           Inr (Editor, reviewed_state\<lparr>iteration := 2\<rparr>, [''5''], out) \<and>
         RevisionError ''quota exceeded'' \<in> set out"
    using t [where st = reviewed_state and e = "''quota exceeded''" and choice_line = "''3''"
               and rest = "[''shorter'', ''/done'', ''5'']" and user_instr = "''shorter''"
               and ?rest1.0 = "[''5'']"]
      menu choice instr given fails
    by (simp add: reviewed_state_def)
  have c: "\<exists>out. creator_step failing_world initial_state [''a lighthouse keeper'', ''/done''] =
           Inr (END, initial_state\<lparr>approved := True\<rparr>, [], out) \<and>
         InitialGenerationError ''quota exceeded'' \<in> set out \<and>
         content (initial_state\<lparr>approved := True\<rparr>) = []"
    using t [where st = initial_state and e = "''quota exceeded''"
               and stdin = "[''a lighthouse keeper'', ''/done'']"
               and idea = "''a lighthouse keeper''" and ?stdin1.0 = "[]"]
      first idea fails
    by simp
  from a b c show ?thesis by blast
qed

theorem failed_calls_change_state_counterexample:
  "editor_step failing_world reviewed_state [] =
     Inr (Creator,
          reviewed_state\<lparr>suggestions := ''(Editor call failed. You can continue editing manually.)'',
                          edited_version := []\<rparr>,
          [], [EditorReview 1, EditorCallError ''quota exceeded'']) \<and>
   suggestions reviewed_state = ''- tighten opening'' \<and>
   edited_version reviewed_state = ''D1-improved'' \<and>
   creator_step failing_world reviewed_state [''3'', ''shorter'', ''/done''] =
     Inr (Editor, reviewed_state\<lparr>iteration := 2\<rparr>, [],
          [EditorSuggestions ''- tighten opening'', RewrittenPreview ''D1-improved'', Menu,
           Prompt ''Describe how you'd like the AI to revise (tone, length, audience, etc.).\<newline>Type /done when finished:'',
           RevisionError ''quota exceeded'']) \<and>
   iteration reviewed_state = 1"
  by code_simp

subsection \<open>The iteration counter\<close>

lemma creator_step_iteration:
  assumes step: "creator_step w st stdin = Inr (nxt, st1, stdin1, out)" and un: "\<not> approved st"
  shows "iteration st1 = iteration st + (if nxt = Editor then 1 else 0) \<and>
         (nxt = Editor \<longrightarrow> \<not> approved st1) \<and> nxt \<noteq> Creator"
proof -
  from step obtain llm u where
    node: "creator_node llm st stdin = Inr (u, stdin1, out)" and
    st1: "st1 = apply_update st u" and
    nxt: "nxt = (if approved st1 then END else Editor)"
    by (auto simp: creator_step_def route_end Let_def split: sum.splits prod.splits)
  have upd: "(approved_upd u = Some True \<and> iteration_upd u = None) \<or>
             (approved_upd u = None \<and> iteration_upd u = Some (iteration st + 1))"
  proof (cases "iteration st = 0 \<and> content st = []")
    case True
    then have first: "iteration st = 0" "content st = []" by blast+
    show ?thesis
      using node unfolding creator_node_first [OF first]
      by (auto simp: Let_def no_update_def split: prod.splits if_splits sum.splits)
  next
    case False
    show ?thesis
    proof (cases stdin)
      case Nil
      with node False show ?thesis by (simp add: creator_node_def input_line_def)
    next
      case (Cons line rest)
      show ?thesis
        using node unfolding Cons creator_node_menu [OF False]
        by (auto simp: Let_def no_update_def split: prod.splits if_splits sum.splits)
    qed
  qed
  then show ?thesis
    using un st1 nxt by (auto simp: apply_update_def)
qed

lemma editor_step_iteration:
  assumes "editor_step w st stdin = Inr (nxt, st1, stdin1, out)"
  shows "iteration st1 = iteration st \<and> approved st1 = approved st \<and> nxt = Creator"
  using assms
  by (auto simp: editor_step_def editor_node_def Let_def apply_update_def no_update_def
      split: sum.splits prod.splits if_splits)

lemma iteration_along_turns:
  assumes "turns w (n, st, stdin) k (n', st', stdin')" and "\<not> approved st"
  shows "iteration st' = iteration st + int k \<and> iteration st \<le> iteration st'"
  using assms
proof (induction "(n, st, stdin)" k "(n', st', stdin')" arbitrary: n st stdin rule: turns.induct)
  case turns_none
  then show ?case by simp
next
  case (turns_creator state stdin next_node state1 stdin1 out k k1)
  from creator_step_iteration [OF turns_creator(1) turns_creator(5)]
  have it: "iteration state1 = iteration state + (if next_node = Editor then 1 else 0)"
    and ap: "next_node = Editor \<longrightarrow> \<not> approved state1" and nc: "next_node \<noteq> Creator"
    by blast+
  show ?case
  proof (cases next_node)
    case Creator
    with nc show ?thesis by simp
  next
    case Editor
    with ap have "\<not> approved state1" by simp
    from turns_creator(3) [OF this] it Editor turns_creator(4) show ?thesis by simp
  next
    case END
    from turns_creator(2) END have "(n', st', stdin') = (END, state1, stdin1) \<and> k = 0"
      by (auto elim: turns.cases)
    with it END turns_creator(4) show ?thesis by simp
  qed
next
  case (turns_editor state stdin next_node state1 stdin1 out k)
  from editor_step_iteration [OF turns_editor(1)] turns_editor(4)
  have "iteration state1 = iteration state" "\<not> approved state1" by simp_all
  with turns_editor(3) show ?case by simp
qed

text \<open>
  At the menu of a running session every choice but Finish hands over to the editor and
  adds one to the counter, whatever it did to the draft; Finish ends the run and adds
  nothing.
\<close>

lemma menu_choice_hands_over:
  assumes "make_creator_llm w = Inr CREATOR_LLM"
    and "\<not> (iteration st = 0 \<and> content st = [])" and "\<not> approved st"
    and "strip choice_line \<noteq> ''5''"
  shows "\<exists>st1 rest1 out. creator_step w st (choice_line # rest) = Inr (Editor, st1, rest1, out) \<and>
           iteration st1 = iteration st + 1"
  using assms(1,3,4)
  by (auto simp: creator_step_def creator_node_menu [OF assms(2)] Let_def route_end
        apply_iteration apply_content split: prod.splits sum.splits)

lemma finish_ends_run:
  assumes "make_creator_llm w = Inr CREATOR_LLM"
    and "\<not> (iteration st = 0 \<and> content st = [])" and "strip choice_line = ''5''"
  shows "\<exists>out. creator_step w st (choice_line # rest) = Inr (END, st\<lparr>approved := True\<rparr>, rest, out)"
  using assms(1,3)
  by (simp add: creator_step_def creator_node_menu [OF assms(2)] Let_def route_end apply_approved)

text \<open>
  Claim C9, amended. Along every sequence of passes of the graph that starts in an
  unfinished state the iteration counter never decreases. It does not count completed
  Creator turns: it counts the passes through \<open>creator_node\<close> that hand over to the
  editor, growing by exactly their number. Such a pass is the first generation and every
  menu choice but Finish, also the choices that leave the draft alone and call no
  Creator (Show diff, an unrecognized choice, nothing to accept, an empty manual edit,
  empty instructions, a failed revision). Passes that end the session and passes through
  \<open>editor_node\<close> add nothing.
\<close>

theorem iteration_counts_passes_to_editor:
  "(turns w (n, st, stdin) k (n', st', stdin') \<and> \<not> approved st \<longrightarrow>
      iteration st' = iteration st + int k \<and> iteration st \<le> iteration st') \<and>
   (make_creator_llm w = Inr CREATOR_LLM \<and> \<not> (iteration st = 0 \<and> content st = []) \<and>
    \<not> approved st \<and> strip choice_line \<noteq> ''5'' \<longrightarrow>
      (\<exists>st1 rest1 out. creator_step w st (choice_line # rest) = Inr (Editor, st1, rest1, out) \<and>
         iteration st1 = iteration st + 1)) \<and>
   (make_creator_llm w = Inr CREATOR_LLM \<and> \<not> (iteration st = 0 \<and> content st = []) \<and>
    strip choice_line = ''5'' \<longrightarrow>
      (\<exists>out. creator_step w st (choice_line # rest) =
         Inr (END, st\<lparr>approved := True\<rparr>, rest, out)))"
  using iteration_along_turns menu_choice_hands_over finish_ends_run by blast

theorem iteration_counts_passes_to_editor_witness:
  "turns working_world (Creator, initial_state, [''a lighthouse keeper'', ''/done'', ''5''])
     1 (END, reviewed_state\<lparr>approved := True\<rparr>, []) \<and>
   \<not> approved initial_state \<and>
   iteration (reviewed_state\<lparr>approved := True\<rparr>) = iteration initial_state + 1 \<and>
   (\<exists>st1 rest1 out. creator_step working_world reviewed_state [''9''] =
        Inr (Editor, st1, rest1, out) \<and> iteration st1 = 2) \<and>
   (\<exists>out. creator_step working_world reviewed_state [''5''] =
        Inr (END, reviewed_state\<lparr>approved := True\<rparr>, [], out))"
proof -
  have s1: "creator_step working_world initial_state [''a lighthouse keeper'', ''/done'', ''5''] =
      Inr (Editor, unreviewed_state, [''5''],
           [Welcome,
            Prompt ''What story would you like to create? Provide a suggestion or idea.\<newline>Type /done when finished.'',
            GeneratedInitialStory])"
    by code_simp
  have s2: "editor_step working_world unreviewed_state [''5''] =
      Inr (Creator, reviewed_state, [''5''], [EditorReview 1])"
    by code_simp
  have s3: "creator_step working_world reviewed_state [''5''] =
      Inr (END, reviewed_state\<lparr>approved := True\<rparr>, [],
           [EditorSuggestions ''- tighten opening'', RewrittenPreview ''D1-improved'', Menu])"
    by code_simp
  have t3: "turns working_world (Creator, reviewed_state, [''5''])
      0 (END, reviewed_state\<lparr>approved := True\<rparr>, [])"
    by (rule turns_creator [OF s3 turns_none]) simp
  have t2: "turns working_world (Editor, unreviewed_state, [''5''])
      0 (END, reviewed_state\<lparr>approved := True\<rparr>, [])"
    by (rule turns_editor [OF s2 t3])
  have t1: "turns working_world (Creator, initial_state, [''a lighthouse keeper'', ''/done'', ''5''])
      1 (END, reviewed_state\<lparr>approved := True\<rparr>, [])"
    by (rule turns_creator [OF s1 t2]) simp
  have start: "\<not> approved initial_state" by (simp add: initial_state_def)
  have client: "make_creator_llm working_world = Inr story_llm"
    by (simp add: working_world_def)
  have menu: "\<not> (iteration reviewed_state = 0 \<and> content reviewed_state = [])"
    and running: "\<not> approved reviewed_state" and one: "iteration reviewed_state + 1 = 2"
    by (simp_all add: reviewed_state_def)
  have other: "strip ''9'' \<noteq> ''5''" by code_simp
  have finish: "strip ''5'' = ''5''" by code_simp
  note t = iteration_counts_passes_to_editor
  have a: "iteration (reviewed_state\<lparr>approved := True\<rparr>) = iteration initial_state + 1"
    using t [where w = working_world and n = Creator and st = initial_state
               and stdin = "[''a lighthouse keeper'', ''/done'', ''5'']" and k = 1
               and n' = END and st' = "reviewed_state\<lparr>approved := True\<rparr>" and stdin' = "[]"]
      t1 start
    by simp
  have b: "\<exists>st1 rest1 out. creator_step working_world reviewed_state [''9''] =
        Inr (Editor, st1, rest1, out) \<and> iteration st1 = 2"
    using t [where w = working_world and CREATOR_LLM = story_llm and st = reviewed_state
               and choice_line = "''9''" and rest = "[]"]
      client menu running other
    by (simp add: one)
  have c: "\<exists>out. creator_step working_world reviewed_state [''5''] =
        Inr (END, reviewed_state\<lparr>approved := True\<rparr>, [], out)"
    using t [where w = working_world and CREATOR_LLM = story_llm and st = reviewed_state
               and choice_line = "''5''" and rest = "[]"]
      client menu finish
    by simp
  from t1 start a b c show ?thesis by blast
qed

theorem iteration_counts_idle_passes_counterexample:
  "final_state_of
     (run_graph working_world (recursion_limit working_world) Creator reviewed_state
        [''4'', ''9'', ''3'', ''/done'', ''2'', ''/done'', ''5'']) =
     Some (reviewed_state\<lparr>iteration := 5, approved := True\<rparr>) \<and>
   iteration reviewed_state = 1 \<and>
   content (reviewed_state\<lparr>iteration := 5, approved := True\<rparr>) = content reviewed_state"
  by code_simp

text \<open>Every run of the graph that returns is such a sequence of passes.\<close>

lemma run_graph_turns:
  "run_graph w passes n st stdin = Inr (fin, stdin', out) \<Longrightarrow>
   \<exists>k. turns w (n, st, stdin) k (END, fin, stdin')"
proof (induction w passes n st stdin arbitrary: fin stdin' out rule: run_graph.induct)
  case (1 w passes state stdin)
  then show ?case by (auto intro: turns_none)
next
  case (2 w state stdin)
  then show ?case by simp
next
  case (3 w state stdin)
  then show ?case by simp
next
  case (4 w passes state stdin)
  from "4.prems" obtain nxt st1 in1 o1 o2 where
    step: "creator_step w state stdin = Inr (nxt, st1, in1, o1)" and
    rest: "run_graph w passes nxt st1 in1 = Inr (fin, stdin', o2)"
    by (auto split: sum.splits prod.splits)
  from "4.IH" [OF step refl refl refl rest] obtain k
    where "turns w (nxt, st1, in1) k (END, fin, stdin')" ..
  with step show ?case by (blast intro: turns_creator)
next
  case (5 w passes state stdin)
  from "5.prems" obtain nxt st1 in1 o1 o2 where
    step: "editor_step w state stdin = Inr (nxt, st1, in1, o1)" and
    rest: "run_graph w passes nxt st1 in1 = Inr (fin, stdin', o2)"
    by (auto split: sum.splits prod.splits)
  from "5.IH" [OF step refl refl refl rest] obtain k
    where "turns w (nxt, st1, in1) k (END, fin, stdin')" ..
  with step show ?case by (blast intro: turns_editor)
qed

section \<open>Properties of the save step\<close>

lemma default_name_is_markdown: "endswith (lower (strftime_draft t)) ''.md''"
proof -
  have "lower (strftime_draft t) = lower (take 21 (strftime_draft t)) @ ''.md''"
    by (simp add: strftime_draft_def two_digits_def lower_def lower_char_def)
  then show ?thesis by (simp add: endswith_def suffix_def)
qed

text \<open>
  Claim C6, amended. The terminal front end saves the content with leading and trailing
  whitespace removed, followed by one newline, and skips the save (no file is touched)
  when nothing is left after the removal. The file is named by the line the human
  typed, stripped; by \<open>draft_<date>_<time>.md\<close> when that is empty; and \<open>.md\<close> is
  appended when the name does not end in \<open>.md\<close> in any casing. The chat front end
  saves non-empty content as it is, followed by one newline, under the default name, and
  skips the save when the content is empty. (The file is written when it can be opened.)
\<close>

theorem save_writes_trimmed_content:
  "(strip (content final_state) = [] \<longrightarrow>
      save_to_markdown w final_state stdin fs = Inr (fs, [NothingToSave])) \<and>
   (strip (content final_state) \<noteq> [] \<and> strip line = [] \<and>
    open_error w (strftime_draft (localtime w)) = None \<longrightarrow>
      save_to_markdown w final_state (line # rest) fs =
        Inr (fs(strftime_draft (localtime w) \<mapsto> strip (content final_state) @ ''\<newline>''),
             [SaveToMarkdown, Saved (strftime_draft (localtime w))])) \<and>
   (strip (content final_state) \<noteq> [] \<and> strip line \<noteq> [] \<and>
    endswith (lower (strip line)) ''.md'' \<and> open_error w (strip line) = None \<longrightarrow>
      save_to_markdown w final_state (line # rest) fs =
        Inr (fs(strip line \<mapsto> strip (content final_state) @ ''\<newline>''),
             [SaveToMarkdown, Saved (strip line)])) \<and>
   (strip (content final_state) \<noteq> [] \<and> strip line \<noteq> [] \<and>
    \<not> endswith (lower (strip line)) ''.md'' \<and> open_error w (strip line @ ''.md'') = None \<longrightarrow>
      save_to_markdown w final_state (line # rest) fs =
        Inr (fs(strip line @ ''.md'' \<mapsto> strip (content final_state) @ ''\<newline>''),
             [SaveToMarkdown, Saved (strip line @ ''.md'')])) \<and>
   (session_content s = [] \<longrightarrow> on_finish now open_err s fs = (fs, [ChatNothingToSave])) \<and>
   (session_content s \<noteq> [] \<and> open_err (strftime_draft now) = None \<longrightarrow>
      on_finish now open_err s fs =
        (fs(strftime_draft now \<mapsto> session_content s @ ''\<newline>''),
         [ChatFinalContent (session_content s), ChatSaved (strftime_draft now)]))"
  by (simp add: save_to_markdown_def on_finish_def input_line_def Let_def default_name_is_markdown)

theorem save_writes_trimmed_content_witness:
  "save_to_markdown working_world padded_state ['' ''] no_files =
     Inr (no_files(''draft_2026-03-09_0705.md'' \<mapsto> ''Final text\<newline>''),
          [SaveToMarkdown, Saved ''draft_2026-03-09_0705.md'']) \<and>
   save_to_markdown working_world padded_state ['' story ''] no_files =
     Inr (no_files(''story.md'' \<mapsto> ''Final text\<newline>''), [SaveToMarkdown, Saved ''story.md'']) \<and>
   save_to_markdown working_world initial_state [''story''] no_files =
     Inr (no_files, [NothingToSave]) \<and>
   on_finish march_morning writable reviewed_session no_files =
     (no_files(''draft_2026-03-09_0705.md'' \<mapsto> ''D1\<newline>''),
      [ChatFinalContent ''D1'', ChatSaved ''draft_2026-03-09_0705.md''])"
proof -
  have name: "strftime_draft (localtime working_world) = ''draft_2026-03-09_0705.md''"
    "strftime_draft march_morning = ''draft_2026-03-09_0705.md''"
    by code_simp+
  have trimmed: "strip (content padded_state) = ''Final text''" by code_simp
  have blank: "strip '' '' = []" by code_simp
  have typed: "strip '' story '' = ''story''" by code_simp
  have other: "\<not> endswith (lower ''story'') ''.md''" by code_simp
  have empty: "strip (content initial_state) = []" by code_simp
  have opens: "open_error working_world n = None" for n
    by (simp add: working_world_def writable_def)
  have draft: "session_content reviewed_session = ''D1''" by (simp add: reviewed_session_def)
  note t = save_writes_trimmed_content
  have a: "save_to_markdown working_world padded_state ['' ''] no_files =
     Inr (no_files(''draft_2026-03-09_0705.md'' \<mapsto> ''Final text\<newline>''),
          [SaveToMarkdown, Saved ''draft_2026-03-09_0705.md''])"
    using t [where w = working_world and final_state = padded_state and line = "'' ''"
               and rest = "[]" and fs = no_files] trimmed blank opens name
    by simp
  have b: "save_to_markdown working_world padded_state ['' story ''] no_files =
     Inr (no_files(''story.md'' \<mapsto> ''Final text\<newline>''), [SaveToMarkdown, Saved ''story.md''])"
    using t [where w = working_world and final_state = padded_state and line = "'' story ''"
               and rest = "[]" and fs = no_files] trimmed typed other opens
    by simp
  have c: "save_to_markdown working_world initial_state [''story''] no_files =
     Inr (no_files, [NothingToSave])"
    using t [where w = working_world and final_state = initial_state and stdin = "[''story'']"
               and fs = no_files] empty
    by simp
  have d: "on_finish march_morning writable reviewed_session no_files =
     (no_files(''draft_2026-03-09_0705.md'' \<mapsto> ''D1\<newline>''),
      [ChatFinalContent ''D1'', ChatSaved ''draft_2026-03-09_0705.md''])"
    using t [where s = reviewed_session and now = march_morning and open_err = writable
               and fs = no_files] draft name
    by (simp add: writable_def)
  from a b c d show ?thesis by blast
qed

theorem save_not_verbatim_counterexample:
  "saved_file (save_to_markdown working_world padded_state [[]] no_files)
     ''draft_2026-03-09_0705.md'' = Some ''Final text\<newline>'' \<and>
   content padded_state @ ''\<newline>'' = ''Final text\<newline>\<newline>''"
  by code_simp

end
